theory Spec2Isabelle
  imports Complex_Main "HOL-Library.Sublist"
begin

section \<open>Python values and the operations the client applies to them\<close>

text \<open>
  \<^verbatim>\<open>response.json()\<close> hands the client whatever JSON document the server sent:
  the code never checks its shape. A parsed document is therefore modelled as an
  untyped JSON value. Python's \<^verbatim>\<open>None\<close> is \<open>JNull\<close>. A float behaves like an integer
  of the same truth value in every operation used here (it is falsy when zero, and it
  supports neither \<^verbatim>\<open>in\<close>, indexing, \<^verbatim>\<open>len\<close> nor iteration), so numbers are \<open>JNum\<close>.
  An object is an association list standing for a \<^verbatim>\<open>dict\<close>; lookups take the first
  binding of a key.
\<close>

datatype json =
    JNull
  | JBool bool
  | JNum int
  | JStr string
  | JArr "json list"
  | JObj "(string \<times> json) list"

text \<open>
  The exceptions that can arise. Of these, \<open>ConnectionError\<close>, \<open>HTTPError\<close> and
  \<open>RequestsJSONDecodeError\<close> are subclasses of \<^verbatim>\<open>requests.exceptions.RequestException\<close>;
  \<open>JSONValueError\<close> is the plain \<^verbatim>\<open>ValueError\<close> that \<^verbatim>\<open>response.json()\<close> raised before
  requests 2.27. \<open>ValueError\<close> and \<open>OverflowError\<close> are what \<^verbatim>\<open>time.sleep\<close> raises.
\<close>

datatype exn =
    ConnectionError
  | HTTPError nat
  | RequestsJSONDecodeError
  | JSONValueError
  | TypeError
  | KeyError
  | ValueError
  | OverflowError

fun is_RequestException :: "exn \<Rightarrow> bool" where
  "is_RequestException ConnectionError = True"
| "is_RequestException (HTTPError _) = True"
| "is_RequestException RequestsJSONDecodeError = True"
| "is_RequestException _ = False"

text \<open>Sequencing of computations that may raise: the first exception wins.\<close>

definition bind_exn :: "exn + 'a \<Rightarrow> ('a \<Rightarrow> exn + 'b) \<Rightarrow> exn + 'b" where
  "bind_exn m f = (case m of Inl e \<Rightarrow> Inl e | Inr x \<Rightarrow> f x)"

text \<open>Truth value of a Python object, as \<^verbatim>\<open>if not topology\<close> tests it.\<close>

fun truthy :: "json \<Rightarrow> bool" where
  "truthy JNull = False"
| "truthy (JBool b) = b"
| "truthy (JNum n) = (n \<noteq> 0)"
| "truthy (JStr s) = (s \<noteq> [])"
| "truthy (JArr xs) = (xs \<noteq> [])"
| "truthy (JObj kvs) = (kvs \<noteq> [])"

text \<open>
  \<^verbatim>\<open>key in v\<close> for a string \<open>key\<close>: key membership on a dict, element membership on
  a list, substring test on a string, \<^verbatim>\<open>TypeError\<close> on anything else.
\<close>

fun py_contains :: "string \<Rightarrow> json \<Rightarrow> exn + bool" where
  "py_contains key (JObj kvs) = Inr (key \<in> set (map fst kvs))"
| "py_contains key (JArr xs) = Inr (JStr key \<in> set xs)"
| "py_contains key (JStr s) = Inr (sublist key s)"
| "py_contains key _ = Inl TypeError"

text \<open>
  \<^verbatim>\<open>v[key]\<close> for a string \<open>key\<close>: lookup on a dict (\<^verbatim>\<open>KeyError\<close> when missing),
  \<^verbatim>\<open>TypeError\<close> on a list or string (their indices must be integers) and on values
  that are not subscriptable.
\<close>

fun py_getitem :: "json \<Rightarrow> string \<Rightarrow> exn + json" where
  "py_getitem (JObj kvs) key =
     (case map_of kvs key of None \<Rightarrow> Inl KeyError | Some v \<Rightarrow> Inr v)"
| "py_getitem _ key = Inl TypeError"

text \<open>\<^verbatim>\<open>len(v)\<close>: defined on lists, dicts and strings.\<close>

fun py_len :: "json \<Rightarrow> exn + nat" where
  "py_len (JArr xs) = Inr (length xs)"
| "py_len (JObj kvs) = Inr (length (remdups (map fst kvs)))"
| "py_len (JStr s) = Inr (length s)"
| "py_len _ = Inl TypeError"

text \<open>
  The items a \<^verbatim>\<open>for\<close> loop over \<open>v\<close> visits: the elements of a list, the keys of a
  dict, the one-character strings of a string; \<^verbatim>\<open>TypeError\<close> otherwise.
\<close>

fun py_iter :: "json \<Rightarrow> exn + json list" where
  "py_iter (JArr xs) = Inr xs"
| "py_iter (JObj kvs) = Inr (map JStr (remdups (map fst kvs)))"
| "py_iter (JStr s) = Inr (map (\<lambda>c. JStr [c]) s)"
| "py_iter _ = Inl TypeError"

text \<open>\<^verbatim>\<open>s.replace(old, new)\<close> for one-character \<open>old\<close> and \<open>new\<close>.\<close>

definition str_replace :: "char \<Rightarrow> char \<Rightarrow> string \<Rightarrow> string" where
  "str_replace old new s = map (\<lambda>c. if c = old then new else c) s"

text \<open>\<^verbatim>\<open>str(n)\<close> for an integer: its decimal digits, with a minus sign when negative.\<close>

definition digit_char :: "nat \<Rightarrow> char" where
  "digit_char d = ''0123456789'' ! d"

function str_nat :: "nat \<Rightarrow> string" where
  "str_nat n = (if n < 10 then [digit_char n] else str_nat (n div 10) @ [digit_char (n mod 10)])"
  by pat_completeness auto
termination
  by (relation "measure (\<lambda>n. n)") auto

definition str_int :: "int \<Rightarrow> string" where
  "str_int i = (if i < 0 then ''-'' @ str_nat (nat (- i)) else str_nat (nat i))"

section \<open>Flow descriptor construction\<close>

text \<open>The identifier \<^verbatim>\<open>f"flow-to-{match_ip.replace('.', '-')}"\<close>.\<close>

definition flow_id_of :: "string \<Rightarrow> string" where
  "flow_id_of match_ip = ''flow-to-'' @ str_replace CHR ''.'' CHR ''-'' match_ip"

definition create_example_flow :: "string \<Rightarrow> int \<Rightarrow> json" where
  "create_example_flow match_ip output_port =
     JObj [(''flow'', JArr [
       JObj [
         (''id'', JStr (flow_id_of match_ip)),
         (''priority'', JNum 100),
         (''table_id'', JNum 0),
         (''match'', JObj [
            (''ethernet-match'', JObj [(''ethernet-type'', JObj [(''type'', JNum 2048)])]),
            (''ipv4-destination'', JStr (match_ip @ ''/32''))]),
         (''instructions'', JObj [
            (''instruction'', JArr [
               JObj [
                 (''order'', JNum 0),
                 (''apply-actions'', JObj [
                    (''action'', JArr [
                       JObj [
                         (''order'', JNum 0),
                         (''output-action'', JObj [
                            (''output-node-connector'', JStr (str_int output_port))])]])])]])])]])]"

text \<open>The identifier as the caller reads it back: \<^verbatim>\<open>example_flow['flow'][0]['id']\<close>.\<close>

definition flow_id_field :: "json \<Rightarrow> json option" where
  "flow_id_field flow =
     (case flow of
        JObj kvs \<Rightarrow>
          (case map_of kvs ''flow'' of
             Some (JArr (JObj fs # _)) \<Rightarrow> map_of fs ''id''
           | _ \<Rightarrow> None)
      | _ \<Rightarrow> None)"

text \<open>
  Dotted-decimal IPv4 literals: four decimal octets (one to three digits, value at most
  255) separated by dots. \<open>split_on\<close> is \<^verbatim>\<open>str.split\<close> with a one-character separator.
\<close>

fun split_on :: "char \<Rightarrow> string \<Rightarrow> string list" where
  "split_on sep [] = [[]]"
| "split_on sep (c # cs) =
     (if c = sep then [] # split_on sep cs
      else (case split_on sep cs of p # ps \<Rightarrow> (c # p) # ps | [] \<Rightarrow> [[c]]))"

definition is_digit :: "char \<Rightarrow> bool" where
  "is_digit c = (c \<in> set ''0123456789'')"

definition digit_val :: "char \<Rightarrow> nat" where
  "digit_val c = of_char c - 48"

definition decimal_val :: "string \<Rightarrow> nat" where
  "decimal_val s = foldl (\<lambda>acc c. 10 * acc + digit_val c) 0 s"

definition is_octet :: "string \<Rightarrow> bool" where
  "is_octet s = (s \<noteq> [] \<and> length s \<le> 3 \<and> list_all is_digit s \<and> decimal_val s \<le> 255)"

definition is_dotted_decimal :: "string \<Rightarrow> bool" where
  "is_dotted_decimal s =
     (let parts = split_on CHR ''.'' s in length parts = 4 \<and> list_all is_octet parts)"

section \<open>The controller client and its environment\<close>

text \<open>
  What a request meets on the network is not decided by the client. The environment
  fixes, for the \<open>i\<close>-th request the process sends, what happens to it (\<open>outcome\<close>) and
  how long the call blocks (\<open>duration\<close>). \<open>ConnectFail\<close> stands for every failure to
  obtain a response (connection refused, DNS failure), which \<^verbatim>\<open>requests\<close> raises as a
  \<^verbatim>\<open>ConnectionError\<close>; \<open>Resp s b\<close> is a response with status \<open>s\<close> whose body either
  parses as JSON or does not. \<open>json_error_is_request_exception\<close> tells which exception
  \<^verbatim>\<open>response.json()\<close> raises on a malformed body: a \<^verbatim>\<open>RequestException\<close> (requests 2.27
  and later) or a plain \<^verbatim>\<open>ValueError\<close> (earlier versions).
\<close>

datatype body = Malformed | Parsed json

datatype http_outcome = ConnectFail | Resp nat body

record env =
  outcome :: "nat \<Rightarrow> http_outcome"
  duration :: "nat \<Rightarrow> rat"
  json_error_is_request_exception :: bool

datatype meth = GET | PUT | DELETE

record request =
  meth :: meth
  url :: string
  req_auth :: "string \<times> string"
  req_headers :: "(string \<times> string) list"
  payload :: "json option"

text \<open>
  The process-wide state outside the controller object: the wall clock that
  \<^verbatim>\<open>time.time()\<close> reads, in seconds, and the requests sent so far.
\<close>

record world =
  clock :: rat
  sent :: "request list"

text \<open>A log line is a level and the pieces of the f-string that was logged.\<close>

datatype level = INFO | WARNING | ERROR

datatype piece = S string | N nat | R rat | E exn

text \<open>The attributes of an \<^verbatim>\<open>ODLController\<close> instance; \<open>logger\<close> holds the lines it logged.\<close>

record odl_controller =
  base_url :: string
  auth :: "string \<times> string"
  headers :: "(string \<times> string) list"
  logger :: "(level \<times> piece list) list"

definition ODLController_init :: "string \<Rightarrow> int \<Rightarrow> string \<Rightarrow> string \<Rightarrow> odl_controller" where
  "ODLController_init ip port username password =
     \<lparr> base_url = ''http://'' @ ip @ '':'' @ str_int port @ ''/restconf'',
       auth = (username, password),
       headers = [(''Content-Type'', ''application/json''), (''Accept'', ''application/json'')],
       logger = [] \<rparr>"

definition log_line :: "level \<Rightarrow> piece list \<Rightarrow> odl_controller \<Rightarrow> odl_controller" where
  "log_line lvl msg self = self\<lparr>logger := logger self @ [(lvl, msg)]\<rparr>"

text \<open>
  \<^verbatim>\<open>requests.get\<close>, \<^verbatim>\<open>requests.put\<close> and \<^verbatim>\<open>requests.delete\<close>, called with the instance's
  credentials and headers: the request is recorded, the clock advances by the time the
  call blocks, and the environment decides between an exception and a response.
\<close>

definition send :: "env \<Rightarrow> odl_controller \<Rightarrow> meth \<Rightarrow> string \<Rightarrow> json option \<Rightarrow> world
    \<Rightarrow> (exn + nat \<times> body) \<times> world" where
  "send env self m u d w =
     (let i = length (sent w);
          w' = w\<lparr>clock := clock w + duration env i,
                 sent := sent w @ [\<lparr>meth = m, url = u, req_auth = auth self,
                                    req_headers = headers self, payload = d\<rparr>]\<rparr>
      in (case outcome env i of
            ConnectFail \<Rightarrow> (Inl ConnectionError, w')
          | Resp s b \<Rightarrow> (Inr (s, b), w')))"

text \<open>\<^verbatim>\<open>response.raise_for_status()\<close> raises for the statuses 400 to 599 and for no other.\<close>

definition raise_for_status :: "nat \<times> body \<Rightarrow> exn + unit" where
  "raise_for_status resp =
     (if 400 \<le> fst resp \<and> fst resp < 600 then Inl (HTTPError (fst resp)) else Inr ())"

definition response_json :: "env \<Rightarrow> nat \<times> body \<Rightarrow> exn + json" where
  "response_json env resp =
     (case snd resp of
        Parsed v \<Rightarrow> Inr v
      | Malformed \<Rightarrow>
          Inl (if json_error_is_request_exception env then RequestsJSONDecodeError
               else JSONValueError))"

text \<open>
  The body the read methods share: GET the URL, raise on an error status, parse the
  body; a \<^verbatim>\<open>RequestException\<close> is logged and becomes \<^verbatim>\<open>None\<close>, any other exception
  propagates.
\<close>

definition get_json :: "env \<Rightarrow> odl_controller \<Rightarrow> string \<Rightarrow> piece list \<Rightarrow> world
    \<Rightarrow> (exn + json) \<times> odl_controller \<times> world" where
  "get_json env self u msg w =
     (case send env self GET u None w of
        (r, w') \<Rightarrow>
          (case bind_exn r (\<lambda>resp. bind_exn (raise_for_status resp) (\<lambda>_. response_json env resp)) of
             Inr v \<Rightarrow> (Inr v, self, w')
           | Inl e \<Rightarrow>
               if is_RequestException e then (Inr JNull, log_line ERROR (msg @ [E e]) self, w')
               else (Inl e, self, w')))"

definition get_topology :: "env \<Rightarrow> odl_controller \<Rightarrow> world
    \<Rightarrow> (exn + json) \<times> odl_controller \<times> world" where
  "get_topology env self w =
     get_json env self (base_url self @ ''/operational/network-topology:network-topology'')
       [S ''Failed to retrieve topology: ''] w"

definition get_nodes :: "env \<Rightarrow> odl_controller \<Rightarrow> world
    \<Rightarrow> (exn + json) \<times> odl_controller \<times> world" where
  "get_nodes env self w =
     get_json env self (base_url self @ ''/operational/opendaylight-inventory:nodes'')
       [S ''Failed to retrieve nodes: ''] w"

definition get_node_connectors :: "env \<Rightarrow> odl_controller \<Rightarrow> string \<Rightarrow> world
    \<Rightarrow> (exn + json) \<times> odl_controller \<times> world" where
  "get_node_connectors env self node_id w =
     get_json env self
       (base_url self @ ''/operational/opendaylight-inventory:nodes/node/'' @ node_id)
       [S ''Failed to retrieve connectors for node '', S node_id, S '': ''] w"

definition get_flows :: "env \<Rightarrow> odl_controller \<Rightarrow> string \<Rightarrow> world
    \<Rightarrow> (exn + json) \<times> odl_controller \<times> world" where
  "get_flows env self node_id w =
     get_json env self
       (base_url self @ ''/operational/opendaylight-inventory:nodes/node/'' @ node_id
          @ ''/flow-node-inventory:table/0'')
       [S ''Failed to retrieve flows for node '', S node_id, S '': ''] w"

definition get_node_statistics :: "env \<Rightarrow> odl_controller \<Rightarrow> string \<Rightarrow> world
    \<Rightarrow> (exn + json) \<times> odl_controller \<times> world" where
  "get_node_statistics env self node_id w =
     get_json env self
       (base_url self @ ''/operational/opendaylight-inventory:nodes/node/'' @ node_id
          @ ''/node-connector'')
       [S ''Failed to retrieve statistics for node '', S node_id, S '': ''] w"

text \<open>The config-tree path that \<open>install_flow\<close> and \<open>delete_flow\<close> both address.\<close>

definition flow_url :: "string \<Rightarrow> string \<Rightarrow> string \<Rightarrow> string" where
  "flow_url base node_id flow_id =
     base @ ''/config/opendaylight-inventory:nodes/node/'' @ node_id
       @ ''/flow-node-inventory:table/0/flow/'' @ flow_id"

definition install_flow :: "env \<Rightarrow> odl_controller \<Rightarrow> string \<Rightarrow> string \<Rightarrow> json \<Rightarrow> world
    \<Rightarrow> (exn + bool) \<times> odl_controller \<times> world" where
  "install_flow env self node_id flow_id flow_body w =
     (case send env self PUT (flow_url (base_url self) node_id flow_id) (Some flow_body) w of
        (r, w') \<Rightarrow>
          (case bind_exn r raise_for_status of
             Inr _ \<Rightarrow>
               (Inr True,
                log_line INFO [S ''Flow '', S flow_id, S '' installed on node '', S node_id] self,
                w')
           | Inl e \<Rightarrow>
               if is_RequestException e then
                 (Inr False,
                  log_line ERROR [S ''Failed to install flow '', S flow_id, S '' on node '',
                                  S node_id, S '': '', E e] self,
                  w')
               else (Inl e, self, w')))"

definition delete_flow :: "env \<Rightarrow> odl_controller \<Rightarrow> string \<Rightarrow> string \<Rightarrow> world
    \<Rightarrow> (exn + bool) \<times> odl_controller \<times> world" where
  "delete_flow env self node_id flow_id w =
     (case send env self DELETE (flow_url (base_url self) node_id flow_id) None w of
        (r, w') \<Rightarrow>
          (case bind_exn r raise_for_status of
             Inr _ \<Rightarrow>
               (Inr True,
                log_line INFO [S ''Flow '', S flow_id, S '' deleted from node '', S node_id] self,
                w')
           | Inl e \<Rightarrow>
               if is_RequestException e then
                 (Inr False,
                  log_line ERROR [S ''Failed to delete flow '', S flow_id, S '' from node '',
                                  S node_id, S '': '', E e] self,
                  w')
               else (Inl e, self, w')))"

text \<open>The two placeholders: they log two lines and return \<^verbatim>\<open>True\<close>.\<close>

definition create_shortest_path_flows :: "odl_controller \<Rightarrow> string \<Rightarrow> string \<Rightarrow> string \<Rightarrow> world
    \<Rightarrow> (exn + bool) \<times> odl_controller \<times> world" where
  "create_shortest_path_flows self source_host dest_host path_preference w =
     (let self1 = log_line INFO [S ''Creating '', S path_preference, S '' path flows from '',
                                 S source_host, S '' to '', S dest_host] self;
          self2 = log_line WARNING
                    [S ''This is a placeholder implementation. Actual path computation required.'']
                    self1
      in (Inr True, self2, w))"

definition create_load_balanced_flows :: "odl_controller \<Rightarrow> string \<Rightarrow> string \<Rightarrow> int \<Rightarrow> world
    \<Rightarrow> (exn + bool) \<times> odl_controller \<times> world" where
  "create_load_balanced_flows self source_ip dest_ip path_count w =
     (let self1 = log_line INFO [S ''Creating load-balanced flows from '', S source_ip, S '' to '',
                                 S dest_ip, S '' across '', S (str_int path_count), S '' paths''] self;
          self2 = log_line WARNING
                    [S ''This is a placeholder implementation. Actual multi-path routing required.'']
                    self1
      in (Inr True, self2, w))"

section \<open>Waiting for topology discovery\<close>

text \<open>
  The test on one entry of the topology list. \<open>Inr (Some (n, l))\<close>: the entry has \<open>n\<close>
  nodes and \<open>l\<close> links, both positive; \<open>Inr None\<close>: go on to the next entry.
\<close>

definition entry_ready :: "json \<Rightarrow> exn + (nat \<times> nat) option" where
  "entry_ready topo =
     bind_exn (py_contains ''node'' topo) (\<lambda>has_node.
       if \<not> has_node then Inr None
       else bind_exn (py_contains ''link'' topo) (\<lambda>has_link.
         if \<not> has_link then Inr None
         else bind_exn (py_getitem topo ''node'') (\<lambda>nodes.
           bind_exn (py_len nodes) (\<lambda>n.
             if \<not> n > 0 then Inr None
             else bind_exn (py_getitem topo ''link'') (\<lambda>links.
               bind_exn (py_len links) (\<lambda>l.
                 if l > 0 then Inr (Some (n, l)) else Inr None))))))"

fun scan_entries :: "json list \<Rightarrow> exn + (nat \<times> nat) option" where
  "scan_entries [] = Inr None"
| "scan_entries (topo # rest) =
     (case entry_ready topo of
        Inl e \<Rightarrow> Inl e
      | Inr (Some found) \<Rightarrow> Inr (Some found)
      | Inr None \<Rightarrow> scan_entries rest)"

text \<open>
  The readiness check on a truthy topology, from the guard to the end of the \<^verbatim>\<open>for\<close>
  loop. The source looks \<^verbatim>\<open>topology['network-topology']\<close> up twice, in the guard and in
  the loop header; the document does not change in between, so it is bound once here.
\<close>

definition topology_ready :: "json \<Rightarrow> exn + (nat \<times> nat) option" where
  "topology_ready topology =
     bind_exn (py_contains ''network-topology'' topology) (\<lambda>has_nt.
       if \<not> has_nt then Inr None
       else bind_exn (py_getitem topology ''network-topology'') (\<lambda>nt.
         bind_exn (py_contains ''topology'' nt) (\<lambda>has_topo.
           if \<not> has_topo then Inr None
           else bind_exn (py_getitem nt ''topology'') (\<lambda>entries.
             bind_exn (py_iter entries) scan_entries))))"

text \<open>
  \<^verbatim>\<open>time.sleep(secs)\<close>. CPython keeps the interval as a signed 64-bit count of
  nanoseconds: an interval of \<^verbatim>\<open>2**63\<close> nanoseconds (about 9.22e9 seconds) or more raises
  \<^verbatim>\<open>OverflowError\<close>, and a negative one raises \<^verbatim>\<open>ValueError\<close>. An interval in between
  is slept, and the clock has advanced by it when the call returns.
\<close>

definition py_sleep :: "rat \<Rightarrow> world \<Rightarrow> exn + world" where
  "py_sleep secs w =
     (if 2 ^ 63 \<le> secs * 1000000000 then Inl OverflowError
      else if secs < 0 then Inl ValueError
      else Inr (w\<lparr>clock := clock w + secs\<rparr>))"

text \<open>The intervals that \<^verbatim>\<open>time.sleep\<close> accepts.\<close>

definition can_sleep :: "rat \<Rightarrow> bool" where
  "can_sleep secs = (0 \<le> secs \<and> secs * 1000000000 < 2 ^ 63)"

text \<open>One pass through the loop body, after \<open>get_topology\<close> has returned \<open>topology\<close>.\<close>

datatype loop_step = Return bool | Continue

definition wait_body :: "rat \<Rightarrow> json \<Rightarrow> odl_controller \<Rightarrow> world
    \<Rightarrow> (exn + loop_step) \<times> odl_controller \<times> world" where
  "wait_body poll_interval topology self w =
     (if \<not> truthy topology then
        (let self1 = log_line WARNING [S ''Could not retrieve topology, retrying...''] self
         in (case py_sleep poll_interval w of
               Inl e \<Rightarrow> (Inl e, self1, w)
             | Inr w1 \<Rightarrow> (Inr Continue, self1, w1)))
      else
        (case topology_ready topology of
           Inl e \<Rightarrow> (Inl e, self, w)
         | Inr (Some (n, l)) \<Rightarrow>
             (Inr (Return True),
              log_line INFO [S ''Topology discovery complete. Found '', N n, S '' nodes and '',
                             N l, S '' links.''] self,
              w)
         | Inr None \<Rightarrow>
             (let self1 = log_line INFO [S ''Topology discovery in progress...''] self
              in (case py_sleep poll_interval w of
                    Inl e \<Rightarrow> (Inl e, self1, w)
                  | Inr w1 \<Rightarrow> (Inr Continue, self1, w1)))))"

text \<open>
  The \<^verbatim>\<open>while\<close> loop. It need not terminate (a zero \<open>poll_interval\<close> with instantaneous
  calls never reaches the deadline), so not returning is the value \<open>None\<close>.
\<close>

partial_function (option) wait_loop :: "env \<Rightarrow> rat \<Rightarrow> rat \<Rightarrow> rat \<Rightarrow> odl_controller \<Rightarrow> world
    \<Rightarrow> ((exn + bool) \<times> odl_controller \<times> world) option" where
  "wait_loop env start_time timeout poll_interval self w =
     (if clock w - start_time < timeout then
        (case get_topology env self w of
           (Inl e, self1, w1) \<Rightarrow> Some (Inl e, self1, w1)
         | (Inr topology, self1, w1) \<Rightarrow>
             (case wait_body poll_interval topology self1 w1 of
                (Inl e, self2, w2) \<Rightarrow> Some (Inl e, self2, w2)
              | (Inr (Return b), self2, w2) \<Rightarrow> Some (Inr b, self2, w2)
              | (Inr Continue, self2, w2) \<Rightarrow>
                  wait_loop env start_time timeout poll_interval self2 w2))
      else
        Some (Inr False,
              log_line WARNING [S ''Topology discovery timed out after '', R timeout, S ''s''] self,
              w))"

definition wait_for_topology_discovery :: "env \<Rightarrow> odl_controller \<Rightarrow> rat \<Rightarrow> rat \<Rightarrow> world
    \<Rightarrow> ((exn + bool) \<times> odl_controller \<times> world) option" where
  "wait_for_topology_discovery env self timeout poll_interval w =
     wait_loop env (clock w) timeout poll_interval
       (log_line INFO [S ''Waiting for topology discovery (timeout: '', R timeout, S ''s)''] self) w"

declare wait_loop.simps [code]

section \<open>Outcomes and responses the properties speak about\<close>

text \<open>
  A transport failure: no response at all, or a response with an error status (400 to
  599). These are the outcomes that the client turns into an exception it catches.
\<close>

fun transport_failure :: "http_outcome \<Rightarrow> bool" where
  "transport_failure ConnectFail = True"
| "transport_failure (Resp s b) = (400 \<le> s \<and> s < 600)"

text \<open>The document a read obtains when the request succeeds.\<close>

fun delivered :: "http_outcome \<Rightarrow> json option" where
  "delivered (Resp s (Parsed t)) = (if 400 \<le> s \<and> s < 600 then None else Some t)"
| "delivered _ = None"

text \<open>
  The shape the controller's topology document has: an object whose
  \<^verbatim>\<open>network-topology\<close> member is an object whose \<^verbatim>\<open>topology\<close> member is a list of entries.
  \<open>entry_list key e\<close> is the list an entry object holds under \<open>key\<close>.
\<close>

definition topology_entries :: "json \<Rightarrow> json list option" where
  "topology_entries t =
     (case t of
        JObj kvs \<Rightarrow>
          (case map_of kvs ''network-topology'' of
             Some (JObj nt) \<Rightarrow>
               (case map_of nt ''topology'' of Some (JArr es) \<Rightarrow> Some es | _ \<Rightarrow> None)
           | _ \<Rightarrow> None)
      | _ \<Rightarrow> None)"

definition entry_list :: "string \<Rightarrow> json \<Rightarrow> json list option" where
  "entry_list key e =
     (case e of
        JObj kvs \<Rightarrow> (case map_of kvs key of Some (JArr xs) \<Rightarrow> Some xs | _ \<Rightarrow> None)
      | _ \<Rightarrow> None)"


text \<open>An entry with a node list and a link list of which at least one is empty.\<close>

definition empty_entry :: "json \<Rightarrow> bool" where
  "empty_entry e =
     (case (entry_list ''node'' e, entry_list ''link'' e) of
        (Some ns, Some ls) \<Rightarrow> ns = [] \<or> ls = []
      | _ \<Rightarrow> False)"






text \<open>
  A poll that neither returns nor raises: the request fails in transport, or it delivers
  a document that is falsy or in which the readiness check finds nothing.
\<close>

definition quiet_response :: "json \<Rightarrow> bool" where
  "quiet_response t = (\<not> truthy t \<or> topology_ready t = Inr None)"

definition quiet_outcome :: "http_outcome \<Rightarrow> bool" where
  "quiet_outcome oc =
     (transport_failure oc \<or> (case delivered oc of Some t \<Rightarrow> quiet_response t | None \<Rightarrow> False))"

text \<open>
  A poll that finds no topology yet: the request fails in transport, or it delivers a
  topology document in which every entry has an empty node list or an empty link list.
\<close>

definition unready_outcome :: "http_outcome \<Rightarrow> bool" where
  "unready_outcome oc =
     (transport_failure oc \<or>
      (case delivered oc of
         Some t \<Rightarrow> (case topology_entries t of Some es \<Rightarrow> list_all empty_entry es | None \<Rightarrow> False)
       | None \<Rightarrow> False))"

text \<open>The request that \<open>get_topology\<close> sends.\<close>

definition topology_request :: "odl_controller \<Rightarrow> request" where
  "topology_request self =
     \<lparr>meth = GET,
      url = base_url self @ ''/operational/network-topology:network-topology'',
      req_auth = auth self, req_headers = headers self, payload = None\<rparr>"

text \<open>The world once \<open>get_topology\<close> has returned, and once a sleep is over.\<close>

definition polled :: "env \<Rightarrow> odl_controller \<Rightarrow> world \<Rightarrow> world" where
  "polled env self w =
     \<lparr>clock = clock w + duration env (length (sent w)),
      sent = sent w @ [topology_request self]\<rparr>"

definition slept :: "rat \<Rightarrow> world \<Rightarrow> world" where
  "slept secs w = \<lparr>clock = clock w + secs, sent = sent w\<rparr>"

text \<open>Two controllers with the same endpoint configuration; their logs may differ.\<close>

definition same_endpoint :: "odl_controller \<Rightarrow> odl_controller \<Rightarrow> bool" where
  "same_endpoint a b = (base_url a = base_url b \<and> auth a = auth b \<and> headers a = headers b)"

text \<open>
  Modelled from the spec: the controller's configuration datastore. It lives in the
  OpenDaylight server, of which this repository holds no code. The spec describes a flow
  write as an idempotent replace (create-or-update) at the resource path; a delete removes
  the resource and a read changes nothing. A request changes the store only when the
  server answers it with a 2xx status.
\<close>

fun accepted :: "http_outcome \<Rightarrow> bool" where
  "accepted (Resp s b) = (200 \<le> s \<and> s < 300)"
| "accepted ConnectFail = False"

definition controller_apply :: "http_outcome \<Rightarrow> request \<Rightarrow> (string \<rightharpoonup> json) \<Rightarrow> (string \<rightharpoonup> json)" where
  "controller_apply oc r store =
     (if accepted oc then
        (case meth r of
           PUT \<Rightarrow> (case payload r of Some b \<Rightarrow> store(url r \<mapsto> b) | None \<Rightarrow> store)
         | DELETE \<Rightarrow> store(url r := None)
         | GET \<Rightarrow> store)
      else store)"

fun controller_run :: "env \<Rightarrow> nat \<Rightarrow> request list \<Rightarrow> (string \<rightharpoonup> json) \<Rightarrow> (string \<rightharpoonup> json)" where
  "controller_run env i [] store = store"
| "controller_run env i (r # rs) store =
     controller_run env (Suc i) rs (controller_apply (outcome env i) r store)"

text \<open>The store after the controller has served every request the process has sent.\<close>

definition config_after :: "env \<Rightarrow> world \<Rightarrow> (string \<rightharpoonup> json) \<Rightarrow> (string \<rightharpoonup> json)" where
  "config_after env w store = controller_run env 0 (sent w) store"

text \<open>
  The time that \<open>k\<close> polls take when none of them returns: each blocks for the duration
  of its request and then sleeps. \<open>n\<close> is the index of the first request.
\<close>

definition elapsed_before :: "env \<Rightarrow> rat \<Rightarrow> nat \<Rightarrow> nat \<Rightarrow> rat" where
  "elapsed_before env poll_interval n k = (\<Sum>i<k. duration env (n + i) + poll_interval)"


section \<open>Concrete instances\<close>

text \<open>
  The controller that \<^verbatim>\<open>main\<close> constructs, a fresh process, and environments that answer
  every request the same way, instantly or after a delay.
\<close>

definition default_controller :: odl_controller where
  "default_controller = ODLController_init ''opendaylight'' 8181 ''admin'' ''admin''"

definition fresh_world :: world where
  "fresh_world = \<lparr>clock = 0, sent = []\<rparr>"

definition always :: "http_outcome \<Rightarrow> rat \<Rightarrow> env" where
  "always oc d =
     \<lparr>outcome = (\<lambda>_. oc), duration = (\<lambda>_. d), json_error_is_request_exception = True\<rparr>"


definition topology_doc :: "json list \<Rightarrow> json" where
  "topology_doc es = JObj [(''network-topology'', JObj [(''topology'', JArr es)])]"

definition entry_doc :: "json \<Rightarrow> json \<Rightarrow> json" where
  "entry_doc ns ls = JObj [(''topology-id'', JStr ''flow:1''), (''node'', ns), (''link'', ls)]"

section \<open>Flow identifiers\<close>

lemma split_on_nonempty: "split_on sep s \<noteq> []"
  by (induction s) (auto split: list.splits)

lemma split_on_chars: "c \<in> set s \<Longrightarrow> c = sep \<or> (\<exists>p \<in> set (split_on sep s). c \<in> set p)"
proof (induction s)
  case Nil
  then show ?case by simp
next
  case (Cons x xs)
  obtain p ps where sp: "split_on sep xs = p # ps"
    using split_on_nonempty [of sep xs] by (cases "split_on sep xs") auto
  show ?case
  proof (cases "x = sep")
    case True
    with Cons show ?thesis by auto
  next
    case False
    with Cons sp show ?thesis by auto
  qed
qed

lemma dotted_decimal_no_dash: "is_dotted_decimal s \<Longrightarrow> CHR ''-'' \<notin> set s"
proof
  assume dd: "is_dotted_decimal s" and mem: "CHR ''-'' \<in> set s"
  from split_on_chars [OF mem, of "CHR ''.''"]
  obtain p where p: "p \<in> set (split_on CHR ''.'' s)" and c: "CHR ''-'' \<in> set p"
    by auto
  from dd p have "is_octet p"
    by (simp add: is_dotted_decimal_def Let_def list_all_iff)
  then have "list_all is_digit p"
    by (simp add: is_octet_def)
  with c have "is_digit CHR ''-''"
    by (simp add: list_all_iff)
  then show False
    by (simp add: is_digit_def)
qed

lemma str_replace_inj:
  "new \<notin> set a \<Longrightarrow> new \<notin> set b \<Longrightarrow> str_replace old new a = str_replace old new b \<Longrightarrow> a = b"
proof (induction a arbitrary: b)
  case Nil
  then show ?case by (simp add: str_replace_def)
next
  case (Cons x xs)
  then obtain y ys where b: "b = y # ys"
    by (cases b) (auto simp: str_replace_def)
  from Cons.prems b have hd: "(if x = old then new else x) = (if y = old then new else y)"
    and tl: "str_replace old new xs = str_replace old new ys"
    by (simp_all add: str_replace_def)
  from Cons.prems b have nx: "x \<noteq> new" and ny: "y \<noteq> new" by auto
  from hd nx ny have "x = y" by (auto split: if_splits)
  moreover from Cons.IH [of ys] Cons.prems b tl have "xs = ys" by simp
  ultimately show ?case using b by simp
qed

lemma flow_id_field_create:
  "flow_id_field (create_example_flow a p) = Some (JStr (flow_id_of a))"
  by (simp add: flow_id_field_def create_example_flow_def)

text \<open>
  C5. The identifier that \<open>create_example_flow\<close> derives depends on the destination
  address alone (the same address gives the same identifier, whatever the port), the
  address \<^verbatim>\<open>10.0.0.2\<close> gives \<^verbatim>\<open>flow-to-10-0-0-2\<close>, and two distinct dotted-decimal IPv4
  literals never get the same identifier.
\<close>

theorem flow_id_deterministic_injective:
  "flow_id_field (create_example_flow a p) = flow_id_field (create_example_flow a q)
   \<and> flow_id_field (create_example_flow ''10.0.0.2'' p) = Some (JStr ''flow-to-10-0-0-2'')
   \<and> (is_dotted_decimal a \<and> is_dotted_decimal b \<and> a \<noteq> b \<longrightarrow>
        flow_id_field (create_example_flow a p) \<noteq> flow_id_field (create_example_flow b q))"
proof (intro conjI impI)
  show "flow_id_field (create_example_flow a p) = flow_id_field (create_example_flow a q)"
    by (simp add: flow_id_field_create)
  show "flow_id_field (create_example_flow ''10.0.0.2'' p) = Some (JStr ''flow-to-10-0-0-2'')"
    by (simp add: flow_id_field_create flow_id_of_def str_replace_def)
next
  assume h: "is_dotted_decimal a \<and> is_dotted_decimal b \<and> a \<noteq> b"
  then have "CHR ''-'' \<notin> set a" and "CHR ''-'' \<notin> set b"
    by (simp_all add: dotted_decimal_no_dash)
  then have "str_replace CHR ''.'' CHR ''-'' a \<noteq> str_replace CHR ''.'' CHR ''-'' b"
    using h str_replace_inj by blast
  then show "flow_id_field (create_example_flow a p) \<noteq> flow_id_field (create_example_flow b q)"
    by (simp add: flow_id_field_create flow_id_of_def)
qed

theorem flow_id_deterministic_injective_witness:
  "is_dotted_decimal ''10.0.0.2'' \<and> is_dotted_decimal ''192.168.10.64''
   \<and> ''10.0.0.2'' \<noteq> ''192.168.10.64''
   \<and> flow_id_field (create_example_flow ''10.0.0.2'' 2)
       \<noteq> flow_id_field (create_example_flow ''192.168.10.64'' 2)"
proof -
  have a: "is_dotted_decimal ''10.0.0.2''"
    by (simp add: is_dotted_decimal_def is_octet_def is_digit_def decimal_val_def digit_val_def)
  have b: "is_dotted_decimal ''192.168.10.64''"
    by (simp add: is_dotted_decimal_def is_octet_def is_digit_def decimal_val_def digit_val_def)
  have ne: "''10.0.0.2'' \<noteq> ''192.168.10.64''"
    by simp
  from a b ne flow_id_deterministic_injective [of "''10.0.0.2''" 2 2 "''192.168.10.64''"]
  show ?thesis by blast
qed

section \<open>The client operations\<close>

lemma send_outcome:
  "send env self m u d w =
     ((case outcome env (length (sent w)) of
         ConnectFail \<Rightarrow> Inl ConnectionError
       | Resp s b \<Rightarrow> Inr (s, b)),
      w\<lparr>clock := clock w + duration env (length (sent w)),
        sent := sent w @ [\<lparr>meth = m, url = u, req_auth = auth self,
                           req_headers = headers self, payload = d\<rparr>]\<rparr>)"
  by (simp add: send_def Let_def split: http_outcome.splits)

lemma get_json_failure:
  assumes "transport_failure (outcome env (length (sent w)))
           \<or> (json_error_is_request_exception env
              \<and> (\<exists>s. outcome env (length (sent w)) = Resp s Malformed))"
  shows "\<exists>e. get_json env self u msg w =
           (Inr JNull, log_line ERROR (msg @ [E e]) self,
            w\<lparr>clock := clock w + duration env (length (sent w)),
              sent := sent w @ [\<lparr>meth = GET, url = u, req_auth = auth self,
                                 req_headers = headers self, payload = None\<rparr>]\<rparr>)"
proof (cases "outcome env (length (sent w))")
  case ConnectFail
  then show ?thesis
    by (auto simp: get_json_def send_outcome bind_exn_def)
next
  case (Resp s b)
  show ?thesis
  proof (cases "400 \<le> s \<and> s < 600")
    case True
    with Resp show ?thesis
      by (auto simp: get_json_def send_outcome bind_exn_def raise_for_status_def)
  next
    case False
    with Resp assms have "json_error_is_request_exception env" and "b = Malformed"
      by auto
    with Resp False show ?thesis
      by (auto simp: get_json_def send_outcome bind_exn_def raise_for_status_def
          response_json_def)
  qed
qed

lemma get_json_delivered:
  assumes "delivered (outcome env (length (sent w))) = Some t"
  shows "get_json env self u msg w =
           (Inr t, self,
            w\<lparr>clock := clock w + duration env (length (sent w)),
              sent := sent w @ [\<lparr>meth = GET, url = u, req_auth = auth self,
                                 req_headers = headers self, payload = None\<rparr>]\<rparr>)"
proof (cases "outcome env (length (sent w))")
  case ConnectFail
  with assms show ?thesis by simp
next
  case (Resp s b)
  with assms obtain "b = Parsed t" and "\<not> (400 \<le> s \<and> s < 600)"
    by (cases b) (auto split: if_splits)
  with Resp show ?thesis
    by (auto simp: get_json_def send_outcome bind_exn_def raise_for_status_def
        response_json_def)
qed

lemma get_json_never_raises:
  assumes "json_error_is_request_exception env"
  shows "\<exists>v. fst (get_json env self u msg w) = Inr v"
proof (cases "outcome env (length (sent w))")
  case ConnectFail
  then show ?thesis
    by (simp add: get_json_def send_outcome bind_exn_def)
next
  case (Resp s b)
  with assms show ?thesis
    by (cases b)
       (simp_all add: get_json_def send_outcome bind_exn_def raise_for_status_def
          response_json_def)
qed

lemma get_json_endpoint:
  "same_endpoint (fst (snd (get_json env self u msg w))) self"
  by (simp add: get_json_def send_outcome same_endpoint_def log_line_def
      split: sum.splits)

lemma install_flow_cases:
  "install_flow env self node_id flow_id flow_body w =
     ((if transport_failure (outcome env (length (sent w))) then Inr False else Inr True),
      fst (snd (install_flow env self node_id flow_id flow_body w)),
      w\<lparr>clock := clock w + duration env (length (sent w)),
        sent := sent w @ [\<lparr>meth = PUT, url = flow_url (base_url self) node_id flow_id,
                           req_auth = auth self, req_headers = headers self,
                           payload = Some flow_body\<rparr>]\<rparr>)"
  by (cases "outcome env (length (sent w))")
     (simp_all add: install_flow_def send_outcome bind_exn_def raise_for_status_def)

lemma delete_flow_cases:
  "delete_flow env self node_id flow_id w =
     ((if transport_failure (outcome env (length (sent w))) then Inr False else Inr True),
      fst (snd (delete_flow env self node_id flow_id w)),
      w\<lparr>clock := clock w + duration env (length (sent w)),
        sent := sent w @ [\<lparr>meth = DELETE, url = flow_url (base_url self) node_id flow_id,
                           req_auth = auth self, req_headers = headers self,
                           payload = None\<rparr>]\<rparr>)"
  by (cases "outcome env (length (sent w))")
     (simp_all add: delete_flow_def send_outcome bind_exn_def raise_for_status_def)

lemma install_flow_endpoint:
  "same_endpoint (fst (snd (install_flow env self node_id flow_id flow_body w))) self"
  by (cases "outcome env (length (sent w))")
     (simp_all add: install_flow_def send_outcome bind_exn_def raise_for_status_def
        same_endpoint_def log_line_def)

lemma delete_flow_endpoint:
  "same_endpoint (fst (snd (delete_flow env self node_id flow_id w))) self"
  by (cases "outcome env (length (sent w))")
     (simp_all add: delete_flow_def send_outcome bind_exn_def raise_for_status_def
        same_endpoint_def log_line_def)

text \<open>
  C10. \<open>create_shortest_path_flows\<close> and \<open>create_load_balanced_flows\<close> return \<^verbatim>\<open>True\<close> for
  every input. They send no request and leave the clock alone (the world is returned as
  it was), and the controller they return differs from the one they were given only by
  the lines they logged.
\<close>

theorem placeholders_return_true:
  "(\<exists>lines. create_shortest_path_flows self source_host dest_host path_preference w =
             (Inr True, self\<lparr>logger := logger self @ lines\<rparr>, w))
   \<and> (\<exists>lines. create_load_balanced_flows self source_ip dest_ip path_count w =
             (Inr True, self\<lparr>logger := logger self @ lines\<rparr>, w))"
  by (simp add: create_shortest_path_flows_def create_load_balanced_flows_def log_line_def)
     blast

text \<open>
  C2, as the code has it. A connection or DNS failure, an error status (400 to 599)
  and, where \<^verbatim>\<open>response.json()\<close> raises a \<^verbatim>\<open>RequestException\<close> on it, a malformed body
  become \<^verbatim>\<open>None\<close> in the four read operations; a connection or DNS failure and an
  error status become \<^verbatim>\<open>False\<close> in \<open>install_flow\<close> and \<open>delete_flow\<close>. The two writes
  never raise, and the reads never raise where the JSON error is a
  \<^verbatim>\<open>RequestException\<close>. A status outside 400 to 599 is no failure, 2xx or not.
\<close>

theorem failures_become_absence:
  "(transport_failure (outcome env (length (sent w)))
      \<or> (json_error_is_request_exception env
          \<and> (\<exists>s. outcome env (length (sent w)) = Resp s Malformed))
     \<longrightarrow> fst (get_topology env self w) = Inr JNull
         \<and> fst (get_nodes env self w) = Inr JNull
         \<and> fst (get_node_connectors env self node_id w) = Inr JNull
         \<and> fst (get_flows env self node_id w) = Inr JNull)
   \<and> (transport_failure (outcome env (length (sent w)))
     \<longrightarrow> fst (install_flow env self node_id flow_id flow_body w) = Inr False
         \<and> fst (delete_flow env self node_id flow_id w) = Inr False)
   \<and> (\<exists>ok. fst (install_flow env self node_id flow_id flow_body w) = Inr ok)
   \<and> (\<exists>ok. fst (delete_flow env self node_id flow_id w) = Inr ok)
   \<and> (json_error_is_request_exception env
     \<longrightarrow> (\<exists>v. fst (get_topology env self w) = Inr v)
         \<and> (\<exists>v. fst (get_nodes env self w) = Inr v)
         \<and> (\<exists>v. fst (get_node_connectors env self node_id w) = Inr v)
         \<and> (\<exists>v. fst (get_flows env self node_id w) = Inr v))"
proof -
  have reads: "fst (get_json env self u msg w) = Inr JNull"
    if "transport_failure (outcome env (length (sent w)))
          \<or> (json_error_is_request_exception env
              \<and> (\<exists>s. outcome env (length (sent w)) = Resp s Malformed))" for u msg
    using get_json_failure [OF that, of self u msg] by auto
  have install: "fst (install_flow env self node_id flow_id flow_body w) =
      (if transport_failure (outcome env (length (sent w))) then Inr False else Inr True)"
    by (subst install_flow_cases) simp
  have delete: "fst (delete_flow env self node_id flow_id w) =
      (if transport_failure (outcome env (length (sent w))) then Inr False else Inr True)"
    by (subst delete_flow_cases) simp
  show ?thesis
    unfolding get_topology_def get_nodes_def get_node_connectors_def get_flows_def
    using reads get_json_never_raises [of env self _ _ w]
    by (auto simp: install delete)
qed

theorem failures_become_absence_witness:
  "transport_failure (outcome (always (Resp 503 Malformed) 0) (length (sent fresh_world)))
   \<and> fst (get_topology (always (Resp 503 Malformed) 0) default_controller fresh_world) = Inr JNull
   \<and> fst (get_nodes (always (Resp 503 Malformed) 0) default_controller fresh_world) = Inr JNull
   \<and> fst (get_node_connectors (always (Resp 503 Malformed) 0) default_controller ''openflow:1''
           fresh_world) = Inr JNull
   \<and> fst (get_flows (always (Resp 503 Malformed) 0) default_controller ''openflow:1''
           fresh_world) = Inr JNull
   \<and> fst (install_flow (always (Resp 503 Malformed) 0) default_controller ''openflow:1''
           ''flow-to-10-0-0-2'' (create_example_flow ''10.0.0.2'' 2) fresh_world) = Inr False
   \<and> fst (delete_flow (always (Resp 503 Malformed) 0) default_controller ''openflow:1''
           ''flow-to-10-0-0-2'' fresh_world) = Inr False"
proof -
  have h: "transport_failure (outcome (always (Resp 503 Malformed) 0) (length (sent fresh_world)))"
    by (simp add: always_def)
  from h failures_become_absence [of "always (Resp 503 Malformed) 0" fresh_world
      default_controller "''openflow:1''" "''flow-to-10-0-0-2''"
      "create_example_flow ''10.0.0.2'' 2"]
  show ?thesis by blast
qed

text \<open>
  The claim as written fails for a status that is neither 2xx nor an error status: on
  300 with a JSON body \<open>get_topology\<close> returns the body, and \<open>install_flow\<close> returns
  \<^verbatim>\<open>True\<close>.
\<close>

theorem non_2xx_status_is_not_absence:
  "fst (get_topology (always (Resp 300 (Parsed (topology_doc []))) 0) default_controller
         fresh_world) = Inr (topology_doc [])
   \<and> topology_doc [] \<noteq> JNull
   \<and> fst (install_flow (always (Resp 300 (Parsed (topology_doc []))) 0) default_controller
           ''openflow:1'' ''flow-to-10-0-0-2'' (create_example_flow ''10.0.0.2'' 2)
           fresh_world) = Inr True"
proof -
  have "delivered (outcome (always (Resp 300 (Parsed (topology_doc []))) 0)
          (length (sent fresh_world))) = Some (topology_doc [])"
    by (simp add: always_def)
  then have "fst (get_topology (always (Resp 300 (Parsed (topology_doc []))) 0)
      default_controller fresh_world) = Inr (topology_doc [])"
    by (simp add: get_topology_def get_json_delivered)
  moreover have "topology_doc [] \<noteq> JNull"
    by (simp add: topology_doc_def)
  moreover have "fst (install_flow (always (Resp 300 (Parsed (topology_doc []))) 0)
      default_controller ''openflow:1'' ''flow-to-10-0-0-2''
      (create_example_flow ''10.0.0.2'' 2) fresh_world) = Inr True"
    by (subst install_flow_cases) (simp add: always_def)
  ultimately show ?thesis by blast
qed

lemma controller_run_append:
  "controller_run env i (rs @ [r]) store =
     controller_apply (outcome env (i + length rs)) r (controller_run env i rs store)"
  by (induction rs arbitrary: i store) simp_all

lemma split_at_separator:
  assumes "c \<notin> set xs" and "c \<notin> set ys" and "xs @ c # u = ys @ c # v"
  shows "xs = ys \<and> u = v"
  using assms
proof (induction xs arbitrary: ys)
  case Nil
  then show ?case by (cases ys) auto
next
  case (Cons x xs)
  then show ?case by (cases ys) auto
qed

lemma flow_url_keyed:
  assumes "CHR ''/'' \<notin> set n1" and "CHR ''/'' \<notin> set n2"
      and "flow_url base n1 f1 = flow_url base n2 f2"
  shows "n1 = n2 \<and> f1 = f2"
proof -
  from assms(3)
  have "n1 @ CHR ''/'' # (''flow-node-inventory:table/0/flow/'' @ f1) =
        n2 @ CHR ''/'' # (''flow-node-inventory:table/0/flow/'' @ f2)"
    by (simp add: flow_url_def)
  from split_at_separator [OF assms(1,2) this] show ?thesis
    by simp
qed

lemma controller_apply_elsewhere:
  assumes "url r \<noteq> u"
  shows "controller_apply oc r store u = store u"
  using assms
  by (simp add: controller_apply_def split: meth.splits option.splits)

text \<open>
  C6. \<open>install_flow\<close> returns a boolean whatever the network does. The request it sends
  is a PUT of the flow body to the config-tree path made of the base URL, \<open>node_id\<close> and
  \<open>flow_id\<close> and of nothing else, so a second install of the same flow sends the same
  request again. Once the controller has accepted the first install, its configuration
  store holds the flow body at that path, and the store after the second install is the
  store after the first. The path is keyed by the two identifiers: for node identifiers
  without a slash, the resource of any other pair of node and flow is left as it was.
\<close>

theorem install_flow_idempotent_replace:
  assumes first: "install_flow env self node_id flow_id flow_body w = (r1, self1, w1)"
      and second: "install_flow env self1 node_id flow_id flow_body w1 = (r2, self2, w2)"
  shows "(\<exists>ok. r1 = Inr ok) \<and> (\<exists>ok. r2 = Inr ok)
     \<and> flow_url (base_url self) node_id flow_id =
           base_url self @ ''/config/opendaylight-inventory:nodes/node/'' @ node_id
             @ ''/flow-node-inventory:table/0/flow/'' @ flow_id
     \<and> sent w1 = sent w @ [\<lparr>meth = PUT, url = flow_url (base_url self) node_id flow_id,
                             req_auth = auth self, req_headers = headers self,
                             payload = Some flow_body\<rparr>]
     \<and> sent w2 = sent w1 @ [\<lparr>meth = PUT, url = flow_url (base_url self) node_id flow_id,
                              req_auth = auth self, req_headers = headers self,
                              payload = Some flow_body\<rparr>]
     \<and> (accepted (outcome env (length (sent w))) \<longrightarrow>
          r1 = Inr True
          \<and> config_after env w1 store (flow_url (base_url self) node_id flow_id) = Some flow_body
          \<and> config_after env w2 store = config_after env w1 store)
     \<and> (CHR ''/'' \<notin> set node_id \<and> CHR ''/'' \<notin> set other_node
          \<and> (other_node, other_flow) \<noteq> (node_id, flow_id) \<longrightarrow>
          config_after env w2 store (flow_url (base_url self) other_node other_flow) =
            config_after env w store (flow_url (base_url self) other_node other_flow))"
proof -
  let ?put = "\<lparr>meth = PUT, url = flow_url (base_url self) node_id flow_id,
               req_auth = auth self, req_headers = headers self, payload = Some flow_body\<rparr>"
  have same: "same_endpoint self1 self"
    using install_flow_endpoint [of env self node_id flow_id flow_body w] first by simp
  have r1: "r1 = (if transport_failure (outcome env (length (sent w))) then Inr False else Inr True)"
    and w1: "sent w1 = sent w @ [?put]"
    using install_flow_cases [of env self node_id flow_id flow_body w] first by simp_all
  have r2: "r2 = (if transport_failure (outcome env (length (sent w1))) then Inr False else Inr True)"
    and w2: "sent w2 = sent w1 @ [?put]"
    using install_flow_cases [of env self1 node_id flow_id flow_body w1] second same
    by (simp_all add: same_endpoint_def)
  have path: "flow_url (base_url self) node_id flow_id =
      base_url self @ ''/config/opendaylight-inventory:nodes/node/'' @ node_id
        @ ''/flow-node-inventory:table/0/flow/'' @ flow_id"
    by (simp add: flow_url_def)
  have stores: "r1 = Inr True
      \<and> config_after env w1 store (flow_url (base_url self) node_id flow_id) = Some flow_body
      \<and> config_after env w2 store = config_after env w1 store"
    if acc: "accepted (outcome env (length (sent w)))"
  proof -
    from acc have "\<not> transport_failure (outcome env (length (sent w)))"
      by (cases "outcome env (length (sent w))") auto
    with r1 have "r1 = Inr True" by simp
    moreover have at_path:
      "config_after env w1 store (flow_url (base_url self) node_id flow_id) = Some flow_body"
      using acc by (simp add: config_after_def w1 controller_run_append controller_apply_def)
    moreover have "config_after env w2 store = config_after env w1 store"
    proof (cases "accepted (outcome env (length (sent w1)))")
      case True
      have "config_after env w2 store =
          (config_after env w1 store)(flow_url (base_url self) node_id flow_id \<mapsto> flow_body)"
        using True by (simp add: config_after_def w2 controller_run_append controller_apply_def)
      with at_path show ?thesis
        by (simp add: map_upd_triv)
    next
      case False
      then show ?thesis
        by (simp add: config_after_def w2 controller_run_append controller_apply_def)
    qed
    ultimately show ?thesis by blast
  qed
  have others: "config_after env w2 store (flow_url (base_url self) other_node other_flow) =
      config_after env w store (flow_url (base_url self) other_node other_flow)"
    if h: "CHR ''/'' \<notin> set node_id \<and> CHR ''/'' \<notin> set other_node
           \<and> (other_node, other_flow) \<noteq> (node_id, flow_id)"
  proof -
    have "flow_url (base_url self) node_id flow_id \<noteq>
        flow_url (base_url self) other_node other_flow"
    proof
      assume "flow_url (base_url self) node_id flow_id =
          flow_url (base_url self) other_node other_flow"
      with h flow_url_keyed [of node_id other_node "base_url self" flow_id other_flow]
      show False by simp
    qed
    then have "url ?put \<noteq> flow_url (base_url self) other_node other_flow"
      by simp
    then show ?thesis
      by (simp add: config_after_def w2 w1 controller_run_append controller_apply_elsewhere
          del: append_assoc)
  qed
  from r1 r2 w1 w2 path stores others show ?thesis
    by (auto split: if_splits)
qed

theorem install_flow_idempotent_replace_witness:
  "accepted (outcome (always (Resp 201 Malformed) 0) (length (sent fresh_world)))
   \<and> fst (install_flow (always (Resp 201 Malformed) 0) default_controller ''openflow:1''
           ''flow-to-10-0-0-2'' (create_example_flow ''10.0.0.2'' 2) fresh_world) = Inr True
   \<and> config_after (always (Resp 201 Malformed) 0)
        (snd (snd (install_flow (always (Resp 201 Malformed) 0)
           (fst (snd (install_flow (always (Resp 201 Malformed) 0) default_controller
              ''openflow:1'' ''flow-to-10-0-0-2'' (create_example_flow ''10.0.0.2'' 2)
              fresh_world)))
           ''openflow:1'' ''flow-to-10-0-0-2'' (create_example_flow ''10.0.0.2'' 2)
           (snd (snd (install_flow (always (Resp 201 Malformed) 0) default_controller
              ''openflow:1'' ''flow-to-10-0-0-2'' (create_example_flow ''10.0.0.2'' 2)
              fresh_world))))))
        Map.empty
     = config_after (always (Resp 201 Malformed) 0)
        (snd (snd (install_flow (always (Resp 201 Malformed) 0) default_controller
           ''openflow:1'' ''flow-to-10-0-0-2'' (create_example_flow ''10.0.0.2'' 2)
           fresh_world)))
        Map.empty
   \<and> config_after (always (Resp 201 Malformed) 0)
        (snd (snd (install_flow (always (Resp 201 Malformed) 0)
           (fst (snd (install_flow (always (Resp 201 Malformed) 0) default_controller
              ''openflow:1'' ''flow-to-10-0-0-2'' (create_example_flow ''10.0.0.2'' 2)
              fresh_world)))
           ''openflow:1'' ''flow-to-10-0-0-2'' (create_example_flow ''10.0.0.2'' 2)
           (snd (snd (install_flow (always (Resp 201 Malformed) 0) default_controller
              ''openflow:1'' ''flow-to-10-0-0-2'' (create_example_flow ''10.0.0.2'' 2)
              fresh_world))))))
        Map.empty
        (flow_url (base_url default_controller) ''openflow:2'' ''flow-to-10-0-0-2'')
     = config_after (always (Resp 201 Malformed) 0) fresh_world Map.empty
        (flow_url (base_url default_controller) ''openflow:2'' ''flow-to-10-0-0-2'')"
proof -
  let ?env = "always (Resp 201 Malformed) 0"
  let ?one = "install_flow ?env default_controller ''openflow:1'' ''flow-to-10-0-0-2''
                (create_example_flow ''10.0.0.2'' 2) fresh_world"
  let ?two = "install_flow ?env (fst (snd ?one)) ''openflow:1'' ''flow-to-10-0-0-2''
                (create_example_flow ''10.0.0.2'' 2) (snd (snd ?one))"
  have acc: "accepted (outcome ?env (length (sent fresh_world)))"
    by (simp add: always_def)
  have other: "CHR ''/'' \<notin> set ''openflow:1'' \<and> CHR ''/'' \<notin> set ''openflow:2''
      \<and> (''openflow:2'', ''flow-to-10-0-0-2'') \<noteq> (''openflow:1'', ''flow-to-10-0-0-2'')"
    by simp
  have one: "?one = (fst ?one, fst (snd ?one), snd (snd ?one))"
    by simp
  have two: "?two = (fst ?two, fst (snd ?two), snd (snd ?two))"
    by simp
  from acc other
    install_flow_idempotent_replace [OF one two, of Map.empty "''openflow:2''"
      "''flow-to-10-0-0-2''"]
  show ?thesis by blast
qed

section \<open>The discovery waiter\<close>

subsection \<open>The readiness check\<close>

lemma map_of_Some_key: "map_of kvs k = Some v \<Longrightarrow> k \<in> fst ` set kvs"
  by (induction kvs) (auto split: if_splits)

lemma entry_list_Some:
  "entry_list key e = Some xs \<longleftrightarrow> (\<exists>kvs. e = JObj kvs \<and> map_of kvs key = Some (JArr xs))"
  by (auto simp: entry_list_def split: json.splits option.splits)


lemma empty_entry_skipped:
  assumes "empty_entry e"
  shows "entry_ready e = Inr None"
proof -
  from assms obtain ns ls where ns: "entry_list ''node'' e = Some ns"
    and ls: "entry_list ''link'' e = Some ls" and emp: "ns = [] \<or> ls = []"
    by (auto simp: empty_entry_def split: option.splits)
  then obtain kvs where e: "e = JObj kvs"
    and n: "map_of kvs ''node'' = Some (JArr ns)" and l: "map_of kvs ''link'' = Some (JArr ls)"
    by (auto simp: entry_list_Some)
  from n l have "''node'' \<in> fst ` set kvs" and "''link'' \<in> fst ` set kvs"
    by (auto dest: map_of_Some_key)
  with e n l emp show ?thesis
    by (auto simp: entry_ready_def bind_exn_def)
qed


lemma scan_entries_all_skipped:
  "list_all (\<lambda>e. entry_ready e = Inr None) es \<Longrightarrow> scan_entries es = Inr None"
  by (induction es) simp_all


lemma topology_ready_entries:
  assumes "topology_entries t = Some es"
  shows "topology_ready t = scan_entries es" and "truthy t"
proof -
  from assms obtain kvs nt where t: "t = JObj kvs"
    and nt: "map_of kvs ''network-topology'' = Some (JObj nt)"
    and es: "map_of nt ''topology'' = Some (JArr es)"
    by (auto simp: topology_entries_def split: json.splits option.splits)
  from nt es have "''network-topology'' \<in> fst ` set kvs" and "''topology'' \<in> fst ` set nt"
    by (auto dest: map_of_Some_key)
  with t nt es show "topology_ready t = scan_entries es"
    by (simp add: topology_ready_def bind_exn_def)
  from t nt show "truthy t"
    by (cases kvs) auto
qed


lemma unready_outcome_quiet:
  assumes "unready_outcome oc"
  shows "quiet_outcome oc"
proof (cases "transport_failure oc")
  case True
  then show ?thesis by (simp add: quiet_outcome_def)
next
  case False
  with assms obtain t es where t: "delivered oc = Some t"
    and es: "topology_entries t = Some es" and all: "list_all empty_entry es"
    by (auto simp: unready_outcome_def split: option.splits)
  from all have "list_all (\<lambda>e. entry_ready e = Inr None) es"
    by (simp add: list_all_iff empty_entry_skipped)
  then have "scan_entries es = Inr None"
    by (rule scan_entries_all_skipped)
  with es have "quiet_response t"
    by (simp add: quiet_response_def topology_ready_entries(1))
  with t show ?thesis
    by (simp add: quiet_outcome_def)
qed


subsection \<open>One pass through the loop\<close>

lemma world_literal: "(w::world)\<lparr>clock := c, sent := s\<rparr> = \<lparr>clock = c, sent = s\<rparr>"
  by (cases w) simp

lemma world_clock_literal: "(w::world)\<lparr>clock := c\<rparr> = \<lparr>clock = c, sent = sent w\<rparr>"
  by (cases w) simp

lemma same_endpoint_refl: "same_endpoint a a"
  by (simp add: same_endpoint_def)

lemma same_endpoint_trans: "same_endpoint a b \<Longrightarrow> same_endpoint b c \<Longrightarrow> same_endpoint a c"
  by (simp add: same_endpoint_def)

lemma same_endpoint_log: "same_endpoint (log_line lvl msg a) a"
  by (simp add: same_endpoint_def log_line_def)

lemma same_endpoint_request: "same_endpoint a b \<Longrightarrow> topology_request a = topology_request b"
  by (simp add: same_endpoint_def topology_request_def)

lemma get_topology_endpoint: "same_endpoint (fst (snd (get_topology env self w))) self"
  by (simp add: get_topology_def get_json_endpoint)

lemma get_topology_delivered:
  assumes "delivered (outcome env (length (sent w))) = Some t"
  shows "get_topology env self w = (Inr t, self, polled env self w)"
  using assms
  by (simp add: get_topology_def topology_request_def get_json_delivered polled_def
      world_literal)

lemma get_topology_quiet:
  assumes "quiet_outcome (outcome env (length (sent w)))"
  shows "\<exists>t self1. get_topology env self w = (Inr t, self1, polled env self w)
         \<and> quiet_response t \<and> same_endpoint self1 self"
proof (cases "transport_failure (outcome env (length (sent w)))")
  case True
  then have "\<exists>e. get_json env self
        (base_url self @ ''/operational/network-topology:network-topology'')
        [S ''Failed to retrieve topology: ''] w =
      (Inr JNull, log_line ERROR ([S ''Failed to retrieve topology: ''] @ [E e]) self,
       w\<lparr>clock := clock w + duration env (length (sent w)),
         sent := sent w @ [\<lparr>meth = GET,
           url = base_url self @ ''/operational/network-topology:network-topology'',
           req_auth = auth self, req_headers = headers self, payload = None\<rparr>]\<rparr>)"
    by (intro get_json_failure) simp
  then show ?thesis
    by (auto simp: get_topology_def topology_request_def polled_def world_literal
        quiet_response_def same_endpoint_log)
next
  case False
  with assms obtain t where t: "delivered (outcome env (length (sent w))) = Some t"
    and q: "quiet_response t"
    by (auto simp: quiet_outcome_def split: option.splits)
  with get_topology_delivered [OF t, of self] show ?thesis
    by (simp add: same_endpoint_refl)
qed

lemma wait_body_quiet:
  assumes "quiet_response t" and "can_sleep poll_interval"
  shows "\<exists>self1. wait_body poll_interval t self w = (Inr Continue, self1, slept poll_interval w)
         \<and> same_endpoint self1 self"
  using assms
  by (auto simp: wait_body_def quiet_response_def py_sleep_def can_sleep_def
      same_endpoint_log slept_def world_clock_literal)


lemma wait_body_endpoint: "same_endpoint (fst (snd (wait_body poll_interval t self w))) self"
  by (simp add: wait_body_def same_endpoint_log same_endpoint_refl py_sleep_def
      split: sum.splits option.splits prod.splits)

lemma wait_loop_expired:
  assumes "\<not> clock w - start_time < timeout"
  shows "wait_loop env start_time timeout poll_interval self w =
           Some (Inr False,
                 log_line WARNING [S ''Topology discovery timed out after '', R timeout, S ''s'']
                   self,
                 w)"
  using assms by (subst wait_loop.simps) simp

lemma wait_loop_quiet_step:
  assumes "clock w - start_time < timeout"
      and "quiet_outcome (outcome env (length (sent w)))"
      and "can_sleep poll_interval"
  shows "\<exists>self1. same_endpoint self1 self
         \<and> wait_loop env start_time timeout poll_interval self w =
             wait_loop env start_time timeout poll_interval self1
               (slept poll_interval (polled env self w))"
proof -
  from get_topology_quiet [OF assms(2), of self]
  obtain t self1 where g: "get_topology env self w = (Inr t, self1, polled env self w)"
    and q: "quiet_response t" and s1: "same_endpoint self1 self"
    by blast
  from wait_body_quiet [OF q assms(3)]
  obtain self2 where b: "wait_body poll_interval t self1 (polled env self w) =
      (Inr Continue, self2, slept poll_interval (polled env self w))"
    and s2: "same_endpoint self2 self1"
    by blast
  have "wait_loop env start_time timeout poll_interval self w =
      wait_loop env start_time timeout poll_interval self2
        (slept poll_interval (polled env self w))"
    using assms(1) g b by (subst wait_loop.simps) simp
  with s1 s2 show ?thesis
    by (blast intro: same_endpoint_trans)
qed




subsection \<open>The whole loop\<close>

lemma elapsed_before_0: "elapsed_before env p n 0 = 0"
  by (simp add: elapsed_before_def)

lemma elapsed_before_Suc_shift:
  "elapsed_before env p n (Suc k) = duration env n + p + elapsed_before env p (Suc n) k"
  by (simp only: elapsed_before_def sum.lessThan_Suc_shift) simp

lemma elapsed_before_mono:
  assumes "0 \<le> p" and "\<forall>i. 0 \<le> duration env i" and "j \<le> k"
  shows "elapsed_before env p n j \<le> elapsed_before env p n k"
  unfolding elapsed_before_def
  using assms by (intro sum_mono2) auto

lemma world_eta: "\<lparr>clock = clock w, sent = sent w\<rparr> = (w::world)"
  by (cases w) simp

lemma polled_fields:
  "clock (polled env self w) = clock w + duration env (length (sent w))"
  "sent (polled env self w) = sent w @ [topology_request self]"
  by (simp_all add: polled_def)

lemma slept_fields:
  "clock (slept secs w) = clock w + secs"
  "sent (slept secs w) = sent w"
  by (simp_all add: slept_def)

lemma wait_loop_quiet_polls:
  assumes "can_sleep poll_interval"
      and "\<forall>i<k. quiet_outcome (outcome env (length (sent w) + i))"
      and "\<forall>j<k. clock w + elapsed_before env poll_interval (length (sent w)) j - start_time
                  < timeout"
  shows "\<exists>self1. same_endpoint self1 self
         \<and> wait_loop env start_time timeout poll_interval self w =
             wait_loop env start_time timeout poll_interval self1
               \<lparr>clock = clock w + elapsed_before env poll_interval (length (sent w)) k,
                sent = sent w @ replicate k (topology_request self)\<rparr>"
  using assms(2,3)
proof (induction k arbitrary: self w)
  case 0
  have "wait_loop env start_time timeout poll_interval self w =
      wait_loop env start_time timeout poll_interval self
        \<lparr>clock = clock w + elapsed_before env poll_interval (length (sent w)) 0,
         sent = sent w @ replicate 0 (topology_request self)\<rparr>"
    by (simp add: elapsed_before_0 world_eta)
  then show ?case
    using same_endpoint_refl by blast
next
  case (Suc k)
  let ?n = "length (sent w)"
  let ?w1 = "slept poll_interval (polled env self w)"
  from Suc.prems(2) have now: "clock w - start_time < timeout"
    by (auto simp: elapsed_before_0 dest: spec [of _ 0])
  from Suc.prems(1) have q0: "quiet_outcome (outcome env ?n)"
    by (auto dest: spec [of _ 0])
  from wait_loop_quiet_step [OF now q0 assms(1), of self]
  obtain self1 where s1: "same_endpoint self1 self"
    and step: "wait_loop env start_time timeout poll_interval self w =
               wait_loop env start_time timeout poll_interval self1 ?w1"
    by blast
  have len: "length (sent ?w1) = Suc ?n"
    by (simp add: slept_fields polled_fields)
  have clk: "clock ?w1 = clock w + duration env ?n + poll_interval"
    by (simp add: slept_fields polled_fields)
  have quiet: "\<forall>i<k. quiet_outcome (outcome env (length (sent ?w1) + i))"
  proof (intro allI impI)
    fix i assume "i < k"
    then have "Suc i < Suc k" by simp
    with Suc.prems(1) have "quiet_outcome (outcome env (?n + Suc i))" by blast
    then show "quiet_outcome (outcome env (length (sent ?w1) + i))"
      by (simp add: len)
  qed
  have early: "\<forall>j<k. clock ?w1 + elapsed_before env poll_interval (length (sent ?w1)) j
                        - start_time < timeout"
  proof (intro allI impI)
    fix j assume "j < k"
    then have "Suc j < Suc k" by simp
    with Suc.prems(2)
    have "clock w + elapsed_before env poll_interval ?n (Suc j) - start_time < timeout"
      by blast
    then show "clock ?w1 + elapsed_before env poll_interval (length (sent ?w1)) j
                 - start_time < timeout"
      by (simp add: len clk elapsed_before_Suc_shift add.assoc)
  qed
  from Suc.IH [OF quiet early, of self1]
  obtain self2 where s2: "same_endpoint self2 self1"
    and rest: "wait_loop env start_time timeout poll_interval self1 ?w1 =
               wait_loop env start_time timeout poll_interval self2
                 \<lparr>clock = clock ?w1 + elapsed_before env poll_interval (length (sent ?w1)) k,
                  sent = sent ?w1 @ replicate k (topology_request self1)\<rparr>"
    by blast
  have "\<lparr>clock = clock ?w1 + elapsed_before env poll_interval (length (sent ?w1)) k,
         sent = sent ?w1 @ replicate k (topology_request self1)\<rparr> =
        \<lparr>clock = clock w + elapsed_before env poll_interval ?n (Suc k),
         sent = sent w @ replicate (Suc k) (topology_request self)\<rparr>"
    using same_endpoint_request [OF s1]
    by (simp add: len clk elapsed_before_Suc_shift add.assoc slept_fields polled_fields)
  with step rest have "wait_loop env start_time timeout poll_interval self w =
      wait_loop env start_time timeout poll_interval self2
        \<lparr>clock = clock w + elapsed_before env poll_interval ?n (Suc k),
         sent = sent w @ replicate (Suc k) (topology_request self)\<rparr>"
    by simp
  with s1 s2 show ?case
    by (blast intro: same_endpoint_trans)
qed

lemma wait_loop_runs_out:
  assumes "0 < m \<longrightarrow> can_sleep poll_interval"
      and "\<forall>i<m. quiet_outcome (outcome env (length (sent w) + i))"
      and "\<forall>j<m. clock w + elapsed_before env poll_interval (length (sent w)) j - start_time
                  < timeout"
      and "\<not> clock w + elapsed_before env poll_interval (length (sent w)) m - start_time
             < timeout"
  shows "\<exists>self1. same_endpoint self1 self
         \<and> wait_loop env start_time timeout poll_interval self w =
             Some (Inr False, self1,
                   \<lparr>clock = clock w + elapsed_before env poll_interval (length (sent w)) m,
                    sent = sent w @ replicate m (topology_request self)\<rparr>)"
proof -
  let ?wm = "\<lparr>clock = clock w + elapsed_before env poll_interval (length (sent w)) m,
              sent = sent w @ replicate m (topology_request self)\<rparr>"
  have "\<exists>self1. same_endpoint self1 self
      \<and> wait_loop env start_time timeout poll_interval self w =
          wait_loop env start_time timeout poll_interval self1 ?wm"
  proof (cases m)
    case 0
    have "wait_loop env start_time timeout poll_interval self w =
        wait_loop env start_time timeout poll_interval self
          \<lparr>clock = clock w + elapsed_before env poll_interval (length (sent w)) 0,
           sent = sent w @ replicate 0 (topology_request self)\<rparr>"
      by (simp add: elapsed_before_0 world_eta)
    with 0 show ?thesis
      using same_endpoint_refl by blast
  next
    case (Suc m')
    with assms(1) have "can_sleep poll_interval" by simp
    from wait_loop_quiet_polls [OF this assms(2,3)] show ?thesis .
  qed
  then obtain self1 where s1: "same_endpoint self1 self"
    and polls: "wait_loop env start_time timeout poll_interval self w =
                wait_loop env start_time timeout poll_interval self1 ?wm"
    by blast
  let ?self2 = "log_line WARNING
      [S ''Topology discovery timed out after '', R timeout, S ''s''] self1"
  from assms(4) have "\<not> clock ?wm - start_time < timeout"
    by simp
  from wait_loop_expired [OF this, of env poll_interval self1] polls
  have "wait_loop env start_time timeout poll_interval self w = Some (Inr False, ?self2, ?wm)"
    by simp
  moreover have "same_endpoint ?self2 self"
    using same_endpoint_log s1 by (rule same_endpoint_trans)
  ultimately show ?thesis by blast
qed



lemma two_quiet_polls:
  assumes "\<forall>i. quiet_outcome (outcome env i)" and "\<forall>i. duration env i = 0"
  shows "\<exists>self1. wait_loop env (clock w) 4 2 self w =
           Some (Inr False, self1,
                 \<lparr>clock = clock w + 4,
                  sent = sent w @ [topology_request self, topology_request self]\<rparr>)"
proof -
  let ?n = "length (sent w)"
  have e0: "elapsed_before env 2 ?n 0 = 0"
    and e1: "elapsed_before env 2 ?n 1 = 2"
    and e2: "elapsed_before env 2 ?n 2 = 4"
    using assms(2) by (simp_all add: elapsed_before_def numeral_2_eq_2)
  have quiet: "\<forall>i<2. quiet_outcome (outcome env (?n + i))"
    using assms(1) by simp
  have early: "\<forall>j<2. clock w + elapsed_before env 2 ?n j - clock w < 4"
  proof (intro allI impI)
    fix j :: nat assume "j < 2"
    then have "j = 0 \<or> j = 1" by auto
    with e0 e1 show "clock w + elapsed_before env 2 ?n j - clock w < 4" by auto
  qed
  have late: "\<not> clock w + elapsed_before env 2 ?n 2 - clock w < 4"
    by (simp add: e2)
  have p: "(0::nat) < 2 \<longrightarrow> can_sleep 2"
    by (simp add: can_sleep_def)
  have rep: "replicate 2 (topology_request self) = [topology_request self, topology_request self]"
    by (simp add: numeral_2_eq_2)
  from wait_loop_runs_out [OF p quiet early late, of self]
  show ?thesis
    by (simp only: e2 rep) blast
qed

lemma wait_loop_endpoint:
  assumes "wait_loop env start_time timeout poll_interval self w = Some y"
  shows "same_endpoint (fst (snd y)) self"
proof (rule wait_loop.raw_induct
    [where P = "\<lambda>env start_time timeout poll_interval self w y. same_endpoint (fst (snd y)) self",
     OF _ assms], goal_cases)
  case (1 loop env start_time timeout poll_interval self w y)
  show ?case
  proof (cases "clock w - start_time < timeout")
    case False
    with 1(2) show ?thesis
      by (auto simp: same_endpoint_log)
  next
    case True
    obtain r self1 w1 where g: "get_topology env self w = (r, self1, w1)"
      by (cases "get_topology env self w") auto
    with get_topology_endpoint [of env self w] have s1: "same_endpoint self1 self"
      by simp
    from 1(2) True g
    have run: "(case r of
                  Inl e \<Rightarrow> Some (Inl e, self1, w1)
                | Inr topology \<Rightarrow>
                    (case wait_body poll_interval topology self1 w1 of
                       (Inl e, self2, w2) \<Rightarrow> Some (Inl e, self2, w2)
                     | (Inr (Return b), self2, w2) \<Rightarrow> Some (Inr b, self2, w2)
                     | (Inr Continue, self2, w2) \<Rightarrow>
                         loop env start_time timeout poll_interval self2 w2)) = Some y"
      by (simp split: sum.splits)
    show ?thesis
    proof (cases r)
      case (Inl e)
      with run s1 show ?thesis by auto
    next
      case (Inr t)
      obtain b self2 w2 where wb: "wait_body poll_interval t self1 w1 = (b, self2, w2)"
        by (cases "wait_body poll_interval t self1 w1") auto
      with wait_body_endpoint [of poll_interval t self1 w1] have s2: "same_endpoint self2 self1"
        by simp
      from s2 s1 have s12: "same_endpoint self2 self"
        by (rule same_endpoint_trans)
      from run Inr wb
      have run2: "(case b of
                     Inl e \<Rightarrow> Some (Inl e, self2, w2)
                   | Inr (Return v) \<Rightarrow> Some (Inr v, self2, w2)
                   | Inr Continue \<Rightarrow> loop env start_time timeout poll_interval self2 w2)
                  = Some y"
        by (simp split: sum.splits loop_step.splits)
      show ?thesis
      proof (cases b)
        case (Inl e)
        with run2 s12 show ?thesis by auto
      next
        case inner: (Inr step)
        show ?thesis
        proof (cases step)
          case (Return v)
          with run2 inner s12 show ?thesis by auto
        next
          case Continue
          with run2 inner
          have "loop env start_time timeout poll_interval self2 w2 = Some y"
            by simp
          from 1(1) [OF this] s12 show ?thesis
            by (rule same_endpoint_trans)
        qed
      qed
    qed
  qed
qed

section \<open>Properties of the discovery waiter\<close>

text \<open>
  C8. No operation of the client changes the endpoint configuration: the controller
  object that \<open>get_topology\<close>, \<open>get_nodes\<close>, \<open>get_node_connectors\<close>, \<open>get_flows\<close>,
  \<open>install_flow\<close>, \<open>delete_flow\<close> and \<open>wait_for_topology_discovery\<close> leave behind has the
  \<open>base_url\<close>, \<open>auth\<close> and \<open>headers\<close> it had before, whatever the network answers and
  whether the operation returns a value or raises.
\<close>

theorem endpoint_config_unchanged:
  "same_endpoint (fst (snd (get_topology env self w))) self
   \<and> same_endpoint (fst (snd (get_nodes env self w))) self
   \<and> same_endpoint (fst (snd (get_node_connectors env self node_id w))) self
   \<and> same_endpoint (fst (snd (get_flows env self node_id w))) self
   \<and> same_endpoint (fst (snd (install_flow env self node_id flow_id flow_body w))) self
   \<and> same_endpoint (fst (snd (delete_flow env self node_id flow_id w))) self
   \<and> (\<forall>r self1 w1.
         wait_for_topology_discovery env self timeout poll_interval w = Some (r, self1, w1)
         \<longrightarrow> base_url self1 = base_url self \<and> auth self1 = auth self
             \<and> headers self1 = headers self)"
proof -
  have waiter: "base_url self1 = base_url self \<and> auth self1 = auth self
      \<and> headers self1 = headers self"
    if run: "wait_for_topology_discovery env self timeout poll_interval w = Some (r, self1, w1)"
    for r self1 w1
  proof -
    let ?self0 = "log_line INFO
        [S ''Waiting for topology discovery (timeout: '', R timeout, S ''s)''] self"
    from run have "wait_loop env (clock w) timeout poll_interval ?self0 w = Some (r, self1, w1)"
      by (simp add: wait_for_topology_discovery_def)
    from wait_loop_endpoint [OF this] have "same_endpoint self1 ?self0"
      by simp
    then have "same_endpoint self1 self"
      using same_endpoint_log by (rule same_endpoint_trans)
    then show ?thesis
      by (simp add: same_endpoint_def)
  qed
  have reads: "same_endpoint (fst (snd (get_topology env self w))) self"
    "same_endpoint (fst (snd (get_nodes env self w))) self"
    "same_endpoint (fst (snd (get_node_connectors env self node_id w))) self"
    "same_endpoint (fst (snd (get_flows env self node_id w))) self"
    by (simp_all add: get_topology_def get_nodes_def get_node_connectors_def get_flows_def
        get_json_endpoint)
  from waiter have "\<forall>r self1 w1.
      wait_for_topology_discovery env self timeout poll_interval w = Some (r, self1, w1)
      \<longrightarrow> base_url self1 = base_url self \<and> auth self1 = auth self
          \<and> headers self1 = headers self"
    by blast
  with reads install_flow_endpoint [of env self node_id flow_id flow_body w]
    delete_flow_endpoint [of env self node_id flow_id w]
  show ?thesis
    by (intro conjI)
qed

theorem endpoint_config_unchanged_witness:
  "\<exists>r self1 w1.
     wait_for_topology_discovery (always (Resp 200 (Parsed (topology_doc []))) 0)
       default_controller 4 2 fresh_world = Some (r, self1, w1)
     \<and> base_url self1 = ''http://opendaylight:8181/restconf''
     \<and> auth self1 = (''admin'', ''admin'')
     \<and> headers self1 = [(''Content-Type'', ''application/json''),
                         (''Accept'', ''application/json'')]"
proof -
  let ?env = "always (Resp 200 (Parsed (topology_doc []))) 0"
  let ?self0 = "log_line INFO
      [S ''Waiting for topology discovery (timeout: '', R 4, S ''s)''] default_controller"
  have quiet: "\<forall>i. quiet_outcome (outcome ?env i)"
    by (simp add: always_def quiet_outcome_def quiet_response_def topology_doc_def
        topology_ready_def bind_exn_def)
  have instant: "\<forall>i. duration ?env i = 0"
    by (simp add: always_def)
  from two_quiet_polls [OF quiet instant, of fresh_world ?self0]
  obtain self1 w1 where
    "wait_loop ?env (clock fresh_world) 4 2 ?self0 fresh_world = Some (Inr False, self1, w1)"
    by blast
  then have run: "wait_for_topology_discovery ?env default_controller 4 2 fresh_world =
       Some (Inr False, self1, w1)"
    by (simp add: wait_for_topology_discovery_def)
  have "\<forall>r self1 w1.
      wait_for_topology_discovery ?env default_controller 4 2 fresh_world = Some (r, self1, w1)
      \<longrightarrow> base_url self1 = base_url default_controller \<and> auth self1 = auth default_controller
          \<and> headers self1 = headers default_controller"
    using endpoint_config_unchanged [of ?env default_controller fresh_world "[]" "[]" JNull 4 2]
    by (elim conjE)
  with run have "base_url self1 = base_url default_controller
      \<and> auth self1 = auth default_controller \<and> headers self1 = headers default_controller"
    by blast
  moreover note run
  moreover have "base_url default_controller = ''http://opendaylight:8181/restconf''"
    by (simp add: default_controller_def ODLController_init_def str_int_def digit_char_def)
  moreover have "auth default_controller = (''admin'', ''admin'')"
    and "headers default_controller = [(''Content-Type'', ''application/json''),
                                       (''Accept'', ''application/json'')]"
    by (simp_all add: default_controller_def ODLController_init_def)
  ultimately show ?thesis by auto
qed

text \<open>
  C4. With \<open>timeout = 4\<close> and \<open>poll_interval = 2\<close>, requests that take no time, and a
  controller whose every answer is a topology without a ready entry (or a failure), the
  waiter calls \<open>get_topology\<close> exactly twice and then returns \<^verbatim>\<open>False\<close>, four seconds
  after it started.
\<close>

theorem two_polls_then_timeout:
  assumes "\<forall>i. unready_outcome (outcome env i)" and "\<forall>i. duration env i = 0"
  shows "\<exists>self1 w1.
           wait_for_topology_discovery env self 4 2 w = Some (Inr False, self1, w1)
         \<and> sent w1 = sent w @ [topology_request self, topology_request self]
         \<and> clock w1 = clock w + 4"
proof -
  let ?self0 = "log_line INFO
      [S ''Waiting for topology discovery (timeout: '', R 4, S ''s)''] self"
  have req: "topology_request ?self0 = topology_request self"
    by (rule same_endpoint_request) (rule same_endpoint_log)
  from assms(1) have quiet: "\<forall>i. quiet_outcome (outcome env i)"
    by (simp add: unready_outcome_quiet)
  from two_quiet_polls [OF quiet assms(2), of w ?self0]
  have "\<exists>self1. wait_for_topology_discovery env self 4 2 w =
      Some (Inr False, self1,
            \<lparr>clock = clock w + 4,
             sent = sent w @ [topology_request self, topology_request self]\<rparr>)"
    by (simp add: wait_for_topology_discovery_def req)
  then show ?thesis by auto
qed

theorem two_polls_then_timeout_witness:
  "\<exists>self1 w1.
     wait_for_topology_discovery
       (always (Resp 200 (Parsed (topology_doc [entry_doc (JArr []) (JArr [])]))) 0)
       default_controller 4 2 fresh_world = Some (Inr False, self1, w1)
   \<and> sent w1 = [topology_request default_controller, topology_request default_controller]
   \<and> clock w1 = 4"
proof -
  let ?env = "always (Resp 200 (Parsed (topology_doc [entry_doc (JArr []) (JArr [])]))) 0"
  have unready: "\<forall>i. unready_outcome (outcome ?env i)"
    by (simp add: always_def unready_outcome_def topology_doc_def topology_entries_def
        entry_doc_def empty_entry_def entry_list_def)
  have instant: "\<forall>i. duration ?env i = 0"
    by (simp add: always_def)
  from two_polls_then_timeout [OF unready instant, of default_controller fresh_world]
  show ?thesis
    by (simp add: fresh_world_def)
qed













end
